theory Spec2Isabelle
  imports Complex_Main "HOL-Library.Word"
begin

section \<open>Newton-Raphson root finding: the program\<close>

text \<open>
  The repository is one C++ function, \<^verbatim>\<open>newton_raphson\<close> in \<^verbatim>\<open>main.cpp\<close>, and a
  demonstration \<^verbatim>\<open>main\<close>. The embedding makes these choices.

  \<^item> \<^verbatim>\<open>size_t\<close> is a 64-bit word: comparison is unsigned and \<^verbatim>\<open>++currentIteration\<close>
    wraps around.
  \<^item> \<^verbatim>\<open>double\<close> is \<^typ>\<open>real\<close>: the operations of lines 38 and 40 are exact, without
    rounding, NaN or infinity. The comparisons are those of the code: the literal
    \<^verbatim>\<open>1e-12\<close> is the binary64 number it denotes, \<open>4951760157141521 / 2 ^ 92\<close>, which lies
    just below \<open>1 / 10 ^ 12\<close>. Division by zero (0 in HOL) is never reached: the guard in
    front of the division leaves only derivative values of at least that magnitude.
  \<^item> The two callables are pure functions on \<^typ>\<open>real\<close>; a second embedding further down
    threads an outside world through them.
  \<^item> The loop may run forever, so it is a partial function into \<open>option\<close>: \<open>None\<close> means
    that the call does not return.
  \<^item> Two ghost components record what the claims speak about and the code does not store:
    the number of evaluation pairs (calls of \<^verbatim>\<open>func\<close> and \<^verbatim>\<open>dervi\<close> in lines 32 and 33) and
    the \<^verbatim>\<open>return\<close> statement that ended the call.
\<close>

subsection \<open>Data\<close>

type_synonym size_t = "64 word"

definition SIZE_MAX :: size_t where
  "SIZE_MAX = 18446744073709551615"

text \<open>The three \<^verbatim>\<open>return\<close> statements of \<^verbatim>\<open>newton_raphson\<close>: lines 36, 41 and 46.\<close>

datatype exit_point = DerivativeGuard | Converged | IterationCap

text \<open>The local variables that live across loop passes, and the count of evaluation pairs.\<close>

record nr_state =
  currentIteration :: size_t
  currentX :: real
  evaluations :: nat

text \<open>The literal \<^verbatim>\<open>1e-12\<close> of line 35, as the binary64 value \<^verbatim>\<open>0x1.19799812dea11p-40\<close>.\<close>

definition derivative_epsilon :: real where
  "derivative_epsilon = 4951760157141521 / 2 ^ 92"

subsection \<open>The loop and the function\<close>

text \<open>
  One unfolding of the \<^verbatim>\<open>while\<close> loop of lines 28 to 44, followed by the \<^verbatim>\<open>return\<close> of
  line 46 when the loop condition fails.
\<close>

partial_function (option) newton_raphson_loop ::
  "(real \<Rightarrow> real) \<Rightarrow> (real \<Rightarrow> real) \<Rightarrow> real \<Rightarrow> size_t \<Rightarrow> nr_state \<Rightarrow>
     (exit_point \<times> nr_state) option"
where
  "newton_raphson_loop func dervi tolerance maxIteration s =
     (if currentIteration s \<le> maxIteration then
        (let previousX = currentX s;
             functionValue = func previousX;
             derivativeValue = dervi previousX;
             s1 = s\<lparr>evaluations := evaluations s + 1\<rparr>
         in if \<bar>derivativeValue\<bar> < derivative_epsilon then Some (DerivativeGuard, s1)
            else (let s2 = s1\<lparr>currentX := previousX - functionValue / derivativeValue\<rparr>
                  in if \<bar>currentX s2 - previousX\<bar> \<le> tolerance then Some (Converged, s2)
                     else newton_raphson_loop func dervi tolerance maxIteration
                            (s2\<lparr>currentIteration := currentIteration s2 + 1\<rparr>)))
      else Some (IterationCap, s))"

declare newton_raphson_loop.simps [code]

text \<open>The call with its ghost components: exit point, final locals, evaluation pairs.\<close>

definition newton_raphson_run ::
  "(real \<Rightarrow> real) \<Rightarrow> (real \<Rightarrow> real) \<Rightarrow> real \<Rightarrow> real \<Rightarrow> size_t \<Rightarrow>
     (exit_point \<times> nr_state) option"
where
  "newton_raphson_run func dervi initialGuess tolerance maxIteration =
     newton_raphson_loop func dervi tolerance maxIteration
       \<lparr>currentIteration = 0, currentX = initialGuess, evaluations = 0\<rparr>"

text \<open>The value the C++ function returns.\<close>

definition newton_raphson ::
  "(real \<Rightarrow> real) \<Rightarrow> (real \<Rightarrow> real) \<Rightarrow> real \<Rightarrow> real \<Rightarrow> size_t \<Rightarrow> real option"
where
  "newton_raphson func dervi initialGuess tolerance maxIteration =
     map_option (\<lambda>r. currentX (snd r))
       (newton_raphson_run func dervi initialGuess tolerance maxIteration)"

text \<open>The update of line 38 as a function of the previous iterate.\<close>

definition newton_step :: "(real \<Rightarrow> real) \<Rightarrow> (real \<Rightarrow> real) \<Rightarrow> real \<Rightarrow> real" where
  "newton_step func dervi x = x - func x / dervi x"

subsection \<open>Callables with effects\<close>

text \<open>
  A \<^verbatim>\<open>std::function\<close> may read and write state outside the call. Here a callable takes
  the outside world and returns its value with the new world; \<^verbatim>\<open>newton_raphson\<close> itself
  touches only its locals, so the world changes only where \<^verbatim>\<open>func\<close> and \<^verbatim>\<open>dervi\<close> are
  called, in the order of lines 32 and 33. The loop state is the triple of the locals
  \<^verbatim>\<open>currentIteration\<close> (here \<open>iteration\<close>) and \<^verbatim>\<open>currentX\<close> (here \<open>x\<close>) and the world.
\<close>

partial_function (option) newton_raphson_loop_w ::
  "(real \<Rightarrow> 'w \<Rightarrow> real \<times> 'w) \<Rightarrow> (real \<Rightarrow> 'w \<Rightarrow> real \<times> 'w) \<Rightarrow> real \<Rightarrow> size_t \<Rightarrow>
     size_t \<times> real \<times> 'w \<Rightarrow> (real \<times> 'w) option"
where
  "newton_raphson_loop_w func dervi tolerance maxIteration st =
     (case st of (iteration, x, w) \<Rightarrow>
        if iteration \<le> maxIteration then
          (let previousX = x;
               (functionValue, w1) = func previousX w;
               (derivativeValue, w2) = dervi previousX w1
           in if \<bar>derivativeValue\<bar> < derivative_epsilon then Some (x, w2)
              else (let x' = previousX - functionValue / derivativeValue
                    in if \<bar>x' - previousX\<bar> \<le> tolerance then Some (x', w2)
                       else newton_raphson_loop_w func dervi tolerance maxIteration
                              (iteration + 1, x', w2)))
        else Some (x, w))"

declare newton_raphson_loop_w.simps [code]

definition newton_raphson_w ::
  "(real \<Rightarrow> 'w \<Rightarrow> real \<times> 'w) \<Rightarrow> (real \<Rightarrow> 'w \<Rightarrow> real \<times> 'w) \<Rightarrow> real \<Rightarrow> real \<Rightarrow> size_t \<Rightarrow>
     'w \<Rightarrow> (real \<times> 'w) option"
where
  "newton_raphson_w func dervi initialGuess tolerance maxIteration w =
     newton_raphson_loop_w func dervi tolerance maxIteration (0, initialGuess, w)"

text \<open>A callable is pure when it computes a function of its argument and leaves the world.\<close>

definition pure_callable :: "(real \<Rightarrow> real) \<Rightarrow> real \<Rightarrow> 'w \<Rightarrow> real \<times> 'w" where
  "pure_callable f x w = (f x, w)"

text \<open>A callable with an effect: it counts its calls in the world.\<close>

definition counting_callable :: "(real \<Rightarrow> real) \<Rightarrow> real \<Rightarrow> nat \<Rightarrow> real \<times> nat" where
  "counting_callable f x n = (f x, n + 1)"

subsection \<open>The algorithm as the specification words it\<close>

text \<open>
  The specification's \<open>findRoot\<close>, step by step: initialise \<open>currentX\<close> (here \<open>cur\<close>) and
  \<open>iteration\<close>; loop while \<open>iteration \<le> maxIterations\<close>; in each pass take \<open>previousX\<close>,
  evaluate \<open>fv\<close> and \<open>dv\<close>, return at the near-zero-derivative guard, update, return at the
  convergence check, increment; after the loop return the last \<open>currentX\<close>. The
  specification's \<open>maxIterations\<close> is a non-negative integer and its counter is incremented
  as a number: both are \<^typ>\<open>nat\<close>, nothing wraps, and the loop ends after at most
  \<open>maxIterations + 1\<close> passes. The literal \<open>1e-12\<close> is read as in the code.
\<close>

function findRoot_loop ::
  "(real \<Rightarrow> real) \<Rightarrow> (real \<Rightarrow> real) \<Rightarrow> real \<Rightarrow> nat \<Rightarrow> nat \<Rightarrow> real \<Rightarrow> real"
where
  "findRoot_loop f fPrime tolerance maxIterations iteration cur =
     (if iteration \<le> maxIterations then
        (let previousX = cur;
             fv = f previousX;
             dv = fPrime previousX
         in if \<bar>dv\<bar> < derivative_epsilon then cur
            else (let cur' = previousX - fv / dv
                  in if \<bar>cur' - previousX\<bar> \<le> tolerance then cur'
                     else findRoot_loop f fPrime tolerance maxIterations (iteration + 1) cur'))
      else cur)"
  by pat_completeness auto
termination
  by (relation "measure (\<lambda>(f, fPrime, tolerance, maxIterations, iteration, cur).
                    maxIterations + 1 - iteration)") auto

declare findRoot_loop.simps [simp del]

definition findRoot ::
  "(real \<Rightarrow> real) \<Rightarrow> (real \<Rightarrow> real) \<Rightarrow> real \<Rightarrow> real \<Rightarrow> nat \<Rightarrow> real"
where
  "findRoot f fPrime initialGuess tolerance maxIterations =
     findRoot_loop f fPrime tolerance maxIterations 0 initialGuess"

subsection \<open>Inputs used in the concrete statements\<close>

text \<open>The two lambdas of \<^verbatim>\<open>main\<close> (lines 56 to 65): \<open>x\<^sup>2 - 3\<close> and \<open>2x\<close>.\<close>

definition main_func :: "real \<Rightarrow> real" where
  "main_func x = x * x - 3"

definition main_dervi :: "real \<Rightarrow> real" where
  "main_dervi x = 2 * x"

text \<open>The specification's second scenario: \<open>f(x) = x - 5\<close> with derivative 1.\<close>

definition linear_func :: "real \<Rightarrow> real" where
  "linear_func x = x - 5"

definition linear_dervi :: "real \<Rightarrow> real" where
  "linear_dervi x = 1"

text \<open>
  \<open>f(x) = x\<^sup>3 - 2x + 2\<close> and its derivative: Newton's method started at 0 steps to 1 and
  back to 0. Every operation on these two iterates is exact in binary floating point too.
\<close>

definition cycle_func :: "real \<Rightarrow> real" where
  "cycle_func x = x * x * x - 2 * x + 2"

definition cycle_dervi :: "real \<Rightarrow> real" where
  "cycle_dervi x = 3 * x * x - 2"

text \<open>
  \<open>f(x) = x\<^sup>3 - 5x\<close> and its derivative: Newton's method started at 1 steps to \<open>-1\<close> and
  back to 1, again with exact operations.
\<close>

definition flip_func :: "real \<Rightarrow> real" where
  "flip_func x = x * x * x - 5 * x"

definition flip_dervi :: "real \<Rightarrow> real" where
  "flip_dervi x = 3 * x * x - 5"

section \<open>One pass of the loop\<close>

text \<open>The four ways through the loop body, as equations of the loop function.\<close>

lemma loop_cap:
  "\<not> currentIteration s \<le> maxIteration \<Longrightarrow>
   newton_raphson_loop func dervi tolerance maxIteration s = Some (IterationCap, s)"
  by (subst newton_raphson_loop.simps) simp

lemma loop_guard:
  "currentIteration s \<le> maxIteration \<Longrightarrow> \<bar>dervi (currentX s)\<bar> < derivative_epsilon \<Longrightarrow>
   newton_raphson_loop func dervi tolerance maxIteration s =
     Some (DerivativeGuard, s\<lparr>evaluations := evaluations s + 1\<rparr>)"
  by (subst newton_raphson_loop.simps) (simp add: Let_def)

lemma loop_converged:
  "currentIteration s \<le> maxIteration \<Longrightarrow> \<not> \<bar>dervi (currentX s)\<bar> < derivative_epsilon \<Longrightarrow>
   \<bar>newton_step func dervi (currentX s) - currentX s\<bar> \<le> tolerance \<Longrightarrow>
   newton_raphson_loop func dervi tolerance maxIteration s =
     Some (Converged, s\<lparr>evaluations := evaluations s + 1,
                          currentX := newton_step func dervi (currentX s)\<rparr>)"
  by (subst newton_raphson_loop.simps) (simp add: Let_def newton_step_def)

lemma loop_continue:
  "currentIteration s \<le> maxIteration \<Longrightarrow> \<not> \<bar>dervi (currentX s)\<bar> < derivative_epsilon \<Longrightarrow>
   \<not> \<bar>newton_step func dervi (currentX s) - currentX s\<bar> \<le> tolerance \<Longrightarrow>
   newton_raphson_loop func dervi tolerance maxIteration s =
     newton_raphson_loop func dervi tolerance maxIteration
       (s\<lparr>evaluations := evaluations s + 1,
          currentX := newton_step func dervi (currentX s),
          currentIteration := currentIteration s + 1\<rparr>)"
  by (subst newton_raphson_loop.simps) (simp add: Let_def newton_step_def)

lemma size_max_minus_one: "SIZE_MAX = - 1"
  by (simp add: SIZE_MAX_def)

text \<open>Below \<^verbatim>\<open>SIZE_MAX\<close> the increment of the counter does not wrap.\<close>

lemma unat_succ_below:
  fixes i m :: size_t
  assumes "i \<le> m" "m \<noteq> - 1"
  shows "unat (i + 1) = Suc (unat i)"
proof -
  have "i \<noteq> - 1" using assms
    by (metis word_order.extremum_unique)
  then have "1 + i \<noteq> 0"
    by (metis add_eq_0_iff)
  then have "unat (1 + i) = Suc (unat i)" by (rule unatSuc)
  then show ?thesis by (simp add: add.commute)
qed

section \<open>Termination and its failure at the largest cap\<close>

text \<open>
  With a cap below \<^verbatim>\<open>SIZE_MAX\<close> the loop returns, after at most as many evaluation pairs
  as there are counter values left up to the cap.
\<close>

lemma loop_terminates:
  assumes "maxIteration \<noteq> - 1"
  shows "unat maxIteration + 1 - unat (currentIteration s) = k \<Longrightarrow>
     \<exists>r. newton_raphson_loop func dervi tolerance maxIteration s = Some r \<and>
         evaluations (snd r) \<le> evaluations s + k"
proof (induction k arbitrary: s)
  case 0
  then have "\<not> currentIteration s \<le> maxIteration"
    by (simp add: word_le_nat_alt)
  then show ?case
    by (simp add: loop_cap)
next
  case (Suc k)
  then have le: "currentIteration s \<le> maxIteration"
    by (simp add: word_le_nat_alt)
  let ?s' = "s\<lparr>evaluations := evaluations s + 1,
               currentX := newton_step func dervi (currentX s),
               currentIteration := currentIteration s + 1\<rparr>"
  have "unat (currentIteration s + 1) = Suc (unat (currentIteration s))"
    using le assms by (rule unat_succ_below)
  with Suc.prems have "unat maxIteration + 1 - unat (currentIteration ?s') = k"
    by simp
  from Suc.IH [OF this] obtain r where
    r: "newton_raphson_loop func dervi tolerance maxIteration ?s' = Some r"
       "evaluations (snd r) \<le> evaluations ?s' + k"
    by blast
  consider (g) "\<bar>dervi (currentX s)\<bar> < derivative_epsilon"
    | (c) "\<not> \<bar>dervi (currentX s)\<bar> < derivative_epsilon"
          "\<bar>newton_step func dervi (currentX s) - currentX s\<bar> \<le> tolerance"
    | (n) "\<not> \<bar>dervi (currentX s)\<bar> < derivative_epsilon"
          "\<not> \<bar>newton_step func dervi (currentX s) - currentX s\<bar> \<le> tolerance"
    by blast
  then show ?case
  proof cases
    case g
    with le show ?thesis by (simp add: loop_guard)
  next
    case c
    with le show ?thesis by (simp add: loop_converged)
  next
    case n
    with le r show ?thesis by (simp add: loop_continue)
  qed
qed

lemma newton_raphson_run_bounded:
  assumes "maxIteration \<noteq> SIZE_MAX"
  shows "\<exists>r. newton_raphson_run func dervi initialGuess tolerance maxIteration = Some r \<and>
             evaluations (snd r) \<le> unat maxIteration + 1"
  using assms
    loop_terminates [of maxIteration
      "\<lparr>currentIteration = 0, currentX = initialGuess, evaluations = 0\<rparr>"
      "unat maxIteration + 1" func dervi tolerance]
  by (simp add: newton_raphson_run_def size_max_minus_one)

text \<open>
  With the cap \<^verbatim>\<open>SIZE_MAX\<close> the loop condition holds for every counter value. If the
  iterates stay in a set on which neither the guard nor the convergence check fires, no
  \<^verbatim>\<open>return\<close> is ever reached.
\<close>

lemma loop_size_max_no_return:
  assumes inv: "\<And>x. I x \<Longrightarrow> \<not> \<bar>d x\<bar> < derivative_epsilon \<and>
                  \<not> \<bar>newton_step f d x - x\<bar> \<le> tol \<and> I (newton_step f d x)"
    and start: "I (currentX s)"
  shows "newton_raphson_loop f d tol SIZE_MAX s = None"
proof -
  have "F = f \<longrightarrow> D = d \<longrightarrow> T = tol \<longrightarrow> M = - 1 \<longrightarrow> I (currentX s) \<longrightarrow> False"
    if "newton_raphson_loop F D T M s = Some r" for F D T M s r
  proof (rule newton_raphson_loop.raw_induct
      [where P = "\<lambda>F D T M s r. F = f \<longrightarrow> D = d \<longrightarrow> T = tol \<longrightarrow> M = (- 1 :: size_t) \<longrightarrow>
                     I (currentX (s :: nr_state)) \<longrightarrow> False", OF _ that])
    fix loop func dervi tolerance maxIteration s r
    assume IH: "\<And>F D T M s r. loop F D T M s = Some r \<Longrightarrow>
        F = f \<longrightarrow> D = d \<longrightarrow> T = tol \<longrightarrow> M = - 1 \<longrightarrow> I (currentX s) \<longrightarrow> False"
      and body: "(if currentIteration s \<le> maxIteration
      then let previousX = currentX s; functionValue = func previousX;
               derivativeValue = dervi previousX;
               s1 = s\<lparr>evaluations := evaluations s + 1\<rparr>
           in if \<bar>derivativeValue\<bar> < derivative_epsilon
              then Some (DerivativeGuard, s1)
              else let s2 = s1
                         \<lparr>currentX :=
                            previousX - functionValue / derivativeValue\<rparr>
                   in if \<bar>currentX s2 - previousX\<bar> \<le> tolerance
                      then Some (Converged, s2)
                      else loop func dervi tolerance
                            maxIteration
                            (s2\<lparr>currentIteration :=
                                  currentIteration s2 + 1\<rparr>)
      else Some (IterationCap, s)) = Some r"
    show "func = f \<longrightarrow> dervi = d \<longrightarrow> tolerance = tol \<longrightarrow> maxIteration = - 1 \<longrightarrow>
          I (currentX s) \<longrightarrow> False"
    proof (intro impI)
      assume eqs: "func = f" "dervi = d" "tolerance = tol" "maxIteration = - 1"
        and I: "I (currentX s)"
      from inv [OF I] have g: "\<not> \<bar>d (currentX s)\<bar> < derivative_epsilon"
        and c: "\<not> \<bar>newton_step f d (currentX s) - currentX s\<bar> \<le> tol"
        and I': "I (newton_step f d (currentX s))" by auto
      from body eqs g c have "loop f d tol (- 1) (s\<lparr>evaluations := evaluations s + 1,
          currentX := newton_step f d (currentX s),
          currentIteration := currentIteration s + 1\<rparr>) = Some r"
        by (simp add: Let_def newton_step_def)
      from IH [OF this] I' show False by simp
    qed
  qed
  with start show ?thesis
    by (cases "newton_raphson_loop f d tol SIZE_MAX s") (auto simp: size_max_minus_one)
qed

section \<open>A negative tolerance\<close>

text \<open>
  The convergence check compares an absolute value with the tolerance, so it cannot hold
  for a negative tolerance, whatever the cap.
\<close>

lemma negative_tolerance_never_converged:
  assumes "tol < 0" and ret: "newton_raphson_loop f d tol m s = Some r"
  shows "fst r \<noteq> Converged"
proof -
  have "T < 0 \<longrightarrow> fst r \<noteq> Converged"
    if "newton_raphson_loop F D T M s = Some r" for F D T M s r
  proof (rule newton_raphson_loop.raw_induct
      [where P = "\<lambda>F D T M s r. T < 0 \<longrightarrow> fst (r :: exit_point \<times> nr_state) \<noteq> Converged", OF _ that],
      goal_cases)
    case (1 loop func dervi tolerance maxIteration s r)
    show ?case
    proof
      assume neg: "tolerance < 0"
      then have nc: "\<not> \<bar>x\<bar> \<le> tolerance" for x by simp
      from 1(2) neg show "fst r \<noteq> Converged"
        using 1(1)
        by (auto simp: Let_def nc split: if_splits)
    qed
  qed
  with assms show ?thesis by blast
qed

lemma loop_negative_tolerance:
  assumes neg: "tolerance < 0" and m: "maxIteration \<noteq> - 1"
  shows "unat maxIteration + 1 - unat (currentIteration s) = k \<Longrightarrow>
     \<exists>r. newton_raphson_loop func dervi tolerance maxIteration s = Some r \<and>
       (fst r = DerivativeGuard \<and> \<bar>dervi (currentX (snd r))\<bar> < derivative_epsilon \<and>
          evaluations (snd r) \<le> evaluations s + k
        \<or> fst r = IterationCap \<and> evaluations (snd r) = evaluations s + k \<and>
          currentX (snd r) = (newton_step func dervi ^^ k) (currentX s))"
proof (induction k arbitrary: s)
  case 0
  then have "\<not> currentIteration s \<le> maxIteration"
    by (simp add: word_le_nat_alt)
  then show ?case
    by (simp add: loop_cap)
next
  case (Suc k)
  then have le: "currentIteration s \<le> maxIteration"
    by (simp add: word_le_nat_alt)
  let ?s' = "s\<lparr>evaluations := evaluations s + 1,
               currentX := newton_step func dervi (currentX s),
               currentIteration := currentIteration s + 1\<rparr>"
  show ?case
  proof (cases "\<bar>dervi (currentX s)\<bar> < derivative_epsilon")
    case True
    with le show ?thesis by (simp add: loop_guard)
  next
    case False
    have nc: "\<not> \<bar>newton_step func dervi (currentX s) - currentX s\<bar> \<le> tolerance"
      using neg by simp
    have "unat (currentIteration s + 1) = Suc (unat (currentIteration s))"
      using le m by (rule unat_succ_below)
    with Suc.prems have "unat maxIteration + 1 - unat (currentIteration ?s') = k"
      by simp
    from Suc.IH [OF this] obtain r where
      r: "newton_raphson_loop func dervi tolerance maxIteration ?s' = Some r"
      and alt: "fst r = DerivativeGuard \<and> \<bar>dervi (currentX (snd r))\<bar> < derivative_epsilon \<and>
          evaluations (snd r) \<le> evaluations ?s' + k
        \<or> fst r = IterationCap \<and> evaluations (snd r) = evaluations ?s' + k \<and>
          currentX (snd r) = (newton_step func dervi ^^ k) (currentX ?s')"
      by blast
    have "newton_raphson_loop func dervi tolerance maxIteration s = Some r"
      using le False nc r by (simp add: loop_continue)
    moreover have "(newton_step func dervi ^^ k) (newton_step func dervi (currentX s)) =
        (newton_step func dervi ^^ Suc k) (currentX s)"
      by (simp add: funpow_swap1)
    ultimately show ?thesis using alt by auto
  qed
qed

text \<open>
  So the convergence exit is never taken, and with a cap below \<^verbatim>\<open>SIZE_MAX\<close> the call
  returns either through the derivative guard, or at the cap after exactly
  \<open>maxIteration + 1\<close> evaluation pairs with the result of \<open>maxIteration + 1\<close> Newton updates of
  the initial guess.
\<close>

lemma negative_tolerance_exits:
  assumes "tolerance < 0"
  shows "(\<forall>r. newton_raphson_run func dervi initialGuess tolerance maxIteration = Some r \<longrightarrow>
            fst r \<noteq> Converged) \<and>
         (maxIteration \<noteq> SIZE_MAX \<longrightarrow>
           (\<exists>r. newton_raphson_run func dervi initialGuess tolerance maxIteration = Some r \<and>
              (fst r = DerivativeGuard \<and> \<bar>dervi (currentX (snd r))\<bar> < derivative_epsilon \<and>
                 evaluations (snd r) \<le> unat maxIteration + 1
               \<or> fst r = IterationCap \<and> evaluations (snd r) = unat maxIteration + 1 \<and>
                 currentX (snd r) =
                   (newton_step func dervi ^^ (unat maxIteration + 1)) initialGuess)))"
proof (intro conjI allI impI)
  fix r
  assume "newton_raphson_run func dervi initialGuess tolerance maxIteration = Some r"
  with assms show "fst r \<noteq> Converged"
    unfolding newton_raphson_run_def by (rule negative_tolerance_never_converged)
next
  assume "maxIteration \<noteq> SIZE_MAX"
  then have "maxIteration \<noteq> - 1" by (simp add: size_max_minus_one)
  from loop_negative_tolerance [OF assms this,
      of "\<lparr>currentIteration = 0, currentX = initialGuess, evaluations = 0\<rparr>"
         "unat maxIteration + 1" func dervi]
  show "\<exists>r. newton_raphson_run func dervi initialGuess tolerance maxIteration = Some r \<and>
              (fst r = DerivativeGuard \<and> \<bar>dervi (currentX (snd r))\<bar> < derivative_epsilon \<and>
                 evaluations (snd r) \<le> unat maxIteration + 1
               \<or> fst r = IterationCap \<and> evaluations (snd r) = unat maxIteration + 1 \<and>
                 currentX (snd r) =
                   (newton_step func dervi ^^ (unat maxIteration + 1)) initialGuess)"
    by (simp add: newton_raphson_run_def)
qed

lemma negative_tolerance_exits_linear:
  "(- 1 :: real) < 0 \<and> (2 :: size_t) \<noteq> SIZE_MAX \<and>
   newton_raphson_run linear_func linear_dervi 0 (- 1) 2 =
     Some (IterationCap, \<lparr>currentIteration = 3, currentX = 5, evaluations = 3\<rparr>) \<and>
   (newton_step linear_func linear_dervi ^^ (unat (2 :: size_t) + 1)) 0 = 5"
proof -
  have h: "(- 1 :: real) < 0" by simp
  have run: "newton_raphson_run linear_func linear_dervi 0 (- 1) 2 =
     Some (IterationCap, \<lparr>currentIteration = 3, currentX = 5, evaluations = 3\<rparr>)"
    by (simp add: newton_raphson_run_def newton_raphson_loop.simps derivative_epsilon_def
        linear_func_def linear_dervi_def)
  have ne: "(2 :: size_t) \<noteq> SIZE_MAX" by (simp add: SIZE_MAX_def)
  from negative_tolerance_exits [OF h, of linear_func linear_dervi 0 2] ne run
  show ?thesis by auto
qed

section \<open>The code against the specification's algorithm\<close>

text \<open>The literal of the guard is the binary64 number nearest to \<open>1 / 10 ^ 12\<close>, from below.\<close>

lemma derivative_epsilon_nearest:
  "derivative_epsilon < 1 / 10 ^ 12 \<and> 1 / 10 ^ 12 - derivative_epsilon \<le> 1 / 2 ^ 93"
  by (simp add: derivative_epsilon_def)

text \<open>The passes of the specification's loop, as equations.\<close>

lemma findRoot_loop_cap:
  "\<not> iteration \<le> maxIterations \<Longrightarrow>
   findRoot_loop f fPrime tolerance maxIterations iteration cur = cur"
  by (subst findRoot_loop.simps) simp

lemma findRoot_loop_guard:
  "iteration \<le> maxIterations \<Longrightarrow> \<bar>fPrime cur\<bar> < derivative_epsilon \<Longrightarrow>
   findRoot_loop f fPrime tolerance maxIterations iteration cur = cur"
  by (subst findRoot_loop.simps) simp

lemma findRoot_loop_converged:
  "iteration \<le> maxIterations \<Longrightarrow> \<not> \<bar>fPrime cur\<bar> < derivative_epsilon \<Longrightarrow>
   \<bar>newton_step f fPrime cur - cur\<bar> \<le> tolerance \<Longrightarrow>
   findRoot_loop f fPrime tolerance maxIterations iteration cur = newton_step f fPrime cur"
  by (subst findRoot_loop.simps) (simp add: Let_def newton_step_def)

lemma findRoot_loop_continue:
  "iteration \<le> maxIterations \<Longrightarrow> \<not> \<bar>fPrime cur\<bar> < derivative_epsilon \<Longrightarrow>
   \<not> \<bar>newton_step f fPrime cur - cur\<bar> \<le> tolerance \<Longrightarrow>
   findRoot_loop f fPrime tolerance maxIterations iteration cur =
     findRoot_loop f fPrime tolerance maxIterations (iteration + 1) (newton_step f fPrime cur)"
  by (subst findRoot_loop.simps) (simp add: Let_def newton_step_def)

text \<open>
  With a cap below \<^verbatim>\<open>SIZE_MAX\<close> the counter of the code does not wrap, and the code's loop
  returns what the specification's loop returns from the same counter and estimate.
\<close>

lemma loop_is_findRoot_loop:
  assumes m: "maxIteration \<noteq> - 1"
  shows "unat maxIteration + 1 - unat (currentIteration s) = k \<Longrightarrow>
     map_option (\<lambda>r. currentX (snd r))
       (newton_raphson_loop func dervi tolerance maxIteration s) =
     Some (findRoot_loop func dervi tolerance (unat maxIteration)
             (unat (currentIteration s)) (currentX s))"
proof (induction k arbitrary: s)
  case 0
  then have nle: "\<not> currentIteration s \<le> maxIteration"
    by (simp add: word_le_nat_alt)
  then have "\<not> unat (currentIteration s) \<le> unat maxIteration"
    by (simp add: word_le_nat_alt)
  with nle show ?case
    by (simp add: loop_cap findRoot_loop_cap)
next
  case (Suc k)
  then have le: "currentIteration s \<le> maxIteration"
    by (simp add: word_le_nat_alt)
  then have le': "unat (currentIteration s) \<le> unat maxIteration"
    by (simp add: word_le_nat_alt)
  let ?s' = "s\<lparr>evaluations := evaluations s + 1,
               currentX := newton_step func dervi (currentX s),
               currentIteration := currentIteration s + 1\<rparr>"
  have suc: "unat (currentIteration s + 1) = Suc (unat (currentIteration s))"
    using le m by (rule unat_succ_below)
  consider (g) "\<bar>dervi (currentX s)\<bar> < derivative_epsilon"
    | (c) "\<not> \<bar>dervi (currentX s)\<bar> < derivative_epsilon"
          "\<bar>newton_step func dervi (currentX s) - currentX s\<bar> \<le> tolerance"
    | (n) "\<not> \<bar>dervi (currentX s)\<bar> < derivative_epsilon"
          "\<not> \<bar>newton_step func dervi (currentX s) - currentX s\<bar> \<le> tolerance"
    by blast
  then show ?case
  proof cases
    case g
    with le le' show ?thesis by (simp add: loop_guard findRoot_loop_guard)
  next
    case c
    with le le' show ?thesis by (simp add: loop_converged findRoot_loop_converged)
  next
    case n
    from suc Suc.prems have "unat maxIteration + 1 - unat (currentIteration ?s') = k"
      by simp
    from Suc.IH [OF this] suc n le le' show ?thesis
      by (simp add: loop_continue findRoot_loop_continue)
  qed
qed

lemma newton_raphson_is_findRoot_below_size_max:
  assumes "maxIteration \<noteq> SIZE_MAX"
  shows "newton_raphson func dervi initialGuess tolerance maxIteration =
         Some (findRoot func dervi initialGuess tolerance (unat maxIteration))"
  using assms
    loop_is_findRoot_loop [of maxIteration
      "\<lparr>currentIteration = 0, currentX = initialGuess, evaluations = 0\<rparr>"
      "unat maxIteration + 1" func dervi tolerance]
  by (simp add: newton_raphson_def newton_raphson_run_def findRoot_def size_max_minus_one)

text \<open>
  While neither the guard nor the convergence check fires, the specification's loop makes
  one Newton update per counter value left, and returns the last one at the cap.
\<close>

lemma findRoot_loop_unrolled:
  assumes inv: "\<And>x. I x \<Longrightarrow> \<not> \<bar>d x\<bar> < derivative_epsilon \<and>
                  \<not> \<bar>newton_step f d x - x\<bar> \<le> tol \<and> I (newton_step f d x)"
  shows "I x \<Longrightarrow> m + 1 - i = k \<Longrightarrow> findRoot_loop f d tol m i x = (newton_step f d ^^ k) x"
proof (induction k arbitrary: i x)
  case 0
  then have "\<not> i \<le> m" by simp
  then show ?case by (simp add: findRoot_loop_cap)
next
  case (Suc k)
  then have le: "i \<le> m" by simp
  from inv [OF Suc.prems(1)] have g: "\<not> \<bar>d x\<bar> < derivative_epsilon"
    and c: "\<not> \<bar>newton_step f d x - x\<bar> \<le> tol"
    and I': "I (newton_step f d x)" by auto
  from Suc.prems have "m + 1 - (i + 1) = k" by simp
  from Suc.IH [OF I' this] le g c show ?case
    by (simp add: findRoot_loop_continue funpow_swap1)
qed

lemma cycle_two_steps:
  "(newton_step cycle_func cycle_dervi ^^ (2 * n)) 1 = 1"
proof (induction n)
  case 0
  show ?case by simp
next
  case (Suc n)
  have "newton_step cycle_func cycle_dervi (newton_step cycle_func cycle_dervi 1) = 1"
    by (simp add: newton_step_def cycle_func_def cycle_dervi_def)
  with Suc show ?case by simp
qed

section \<open>The code among callables with effects\<close>

lemma world_refines_pure:
  assumes "newton_raphson_loop_w (pure_callable f) (pure_callable d) tol m (i, x, w) = Some rw"
  shows "snd rw = w \<and>
         (\<forall>e. map_option (\<lambda>r. currentX (snd r))
            (newton_raphson_loop f d tol m \<lparr>currentIteration = i, currentX = x, evaluations = e\<rparr>)
          = Some (fst rw))"
proof -
  have main: "case st of (i, x, w) \<Rightarrow>
         F = pure_callable f \<longrightarrow> D = pure_callable d \<longrightarrow> snd rw = w \<and>
         (\<forall>e. map_option (\<lambda>r. currentX (snd r))
            (newton_raphson_loop f d T M \<lparr>currentIteration = i, currentX = x, evaluations = e\<rparr>)
          = Some (fst rw))"
    if "newton_raphson_loop_w F D T M st = Some rw"
    for F D T M and st :: "size_t \<times> real \<times> 'a" and rw
  proof (rule newton_raphson_loop_w.raw_induct
      [where P = "\<lambda>F D T M st rw. case st of (i, x, w :: 'a) \<Rightarrow>
         F = pure_callable f \<longrightarrow> D = pure_callable d \<longrightarrow> snd rw = w \<and>
         (\<forall>e. map_option (\<lambda>r. currentX (snd r))
            (newton_raphson_loop f d T M \<lparr>currentIteration = i, currentX = x, evaluations = e\<rparr>)
          = Some (fst rw))", OF _ that], goal_cases)
    case (1 loop func dervi tolerance maxIteration st rw)
    obtain iteration x w where st: "st = (iteration, x, w)" by (cases st) auto
    have "func = pure_callable f \<longrightarrow> dervi = pure_callable d \<longrightarrow> snd rw = w \<and>
         (\<forall>e. map_option (\<lambda>r. currentX (snd r))
            (newton_raphson_loop f d tolerance maxIteration
               \<lparr>currentIteration = iteration, currentX = x, evaluations = e\<rparr>)
          = Some (fst rw))"
    proof (intro impI)
      assume F: "func = pure_callable f" and D: "dervi = pure_callable d"
      consider (cap) "\<not> iteration \<le> maxIteration"
        | (g) "iteration \<le> maxIteration" "\<bar>d x\<bar> < derivative_epsilon"
        | (c) "iteration \<le> maxIteration" "\<not> \<bar>d x\<bar> < derivative_epsilon"
              "\<bar>newton_step f d x - x\<bar> \<le> tolerance"
        | (n) "iteration \<le> maxIteration" "\<not> \<bar>d x\<bar> < derivative_epsilon"
              "\<not> \<bar>newton_step f d x - x\<bar> \<le> tolerance"
        by blast
      then show "snd rw = w \<and>
         (\<forall>e. map_option (\<lambda>r. currentX (snd r))
            (newton_raphson_loop f d tolerance maxIteration
               \<lparr>currentIteration = iteration, currentX = x, evaluations = e\<rparr>)
          = Some (fst rw))"
      proof cases
        case cap
        with 1(2) st show ?thesis by (auto simp: loop_cap)
      next
        case g
        with 1(2) st F D show ?thesis
          by (auto simp: loop_guard pure_callable_def)
      next
        case c
        with 1(2) st F D show ?thesis
          by (auto simp: loop_converged pure_callable_def newton_step_def)
      next
        case n
        with 1(2) st F D have "loop func dervi tolerance maxIteration
            (iteration + 1, newton_step f d x, w) = Some rw"
          by (simp add: pure_callable_def newton_step_def)
        from 1(1) [OF this] F D n show ?thesis
          by (simp add: loop_continue)
      qed
    qed
    with st show ?case by simp
  qed
  from main [OF assms] show ?thesis by simp
qed

lemma pure_refines_world:
  assumes "newton_raphson_loop f d tol m s = Some r"
  shows "newton_raphson_loop_w (pure_callable f) (pure_callable d) tol m
           (currentIteration s, currentX s, w) = Some (currentX (snd r), w)"
proof (rule newton_raphson_loop.raw_induct
    [where P = "\<lambda>F D T M s r. newton_raphson_loop_w (pure_callable F) (pure_callable D) T M
           (currentIteration s, currentX s, w) = Some (currentX (snd r), w)", OF _ assms],
    goal_cases)
  case (1 loop func dervi tolerance maxIteration s r)
  show ?case
  proof (cases "currentIteration s \<le> maxIteration")
    case False
    with 1(2) show ?thesis
      by (subst newton_raphson_loop_w.simps) auto
  next
    case le: True
    show ?thesis
    proof (cases "\<bar>dervi (currentX s)\<bar> < derivative_epsilon")
      case True
      with le 1(2) show ?thesis
        by (subst newton_raphson_loop_w.simps) (auto simp: pure_callable_def)
    next
      case g: False
      show ?thesis
      proof (cases "\<bar>currentX s - func (currentX s) / dervi (currentX s) - currentX s\<bar> \<le> tolerance")
        case True
        with le g 1(2) show ?thesis
          by (subst newton_raphson_loop_w.simps) (auto simp: pure_callable_def Let_def)
      next
        case False
        with le g 1(2) have "loop func dervi tolerance maxIteration
            (s\<lparr>evaluations := evaluations s + 1,
               currentX := currentX s - func (currentX s) / dervi (currentX s),
               currentIteration := currentIteration s + 1\<rparr>) = Some r"
          by (simp add: Let_def)
        from 1(1) [OF this] le g False show ?thesis
          by (subst newton_raphson_loop_w.simps) (simp add: pure_callable_def Let_def)
      qed
    qed
  qed
qed

lemma newton_raphson_w_pure:
  "newton_raphson_w (pure_callable func) (pure_callable dervi) initialGuess tolerance maxIteration w
   = map_option (\<lambda>r. (r, w)) (newton_raphson func dervi initialGuess tolerance maxIteration)"
proof (cases "newton_raphson_run func dervi initialGuess tolerance maxIteration")
  case (Some r)
  then have "newton_raphson_loop func dervi tolerance maxIteration
      \<lparr>currentIteration = 0, currentX = initialGuess, evaluations = 0\<rparr> = Some r"
    by (simp add: newton_raphson_run_def)
  from pure_refines_world [OF this, of w] Some show ?thesis
    by (simp add: newton_raphson_w_def newton_raphson_def)
next
  case None
  have "newton_raphson_w (pure_callable func) (pure_callable dervi) initialGuess tolerance
          maxIteration w = None"
  proof (rule ccontr)
    assume "newton_raphson_w (pure_callable func) (pure_callable dervi) initialGuess tolerance
          maxIteration w \<noteq> None"
    then obtain rw where "newton_raphson_loop_w (pure_callable func) (pure_callable dervi)
        tolerance maxIteration (0, initialGuess, w) = Some rw"
      by (auto simp: newton_raphson_w_def)
    from world_refines_pure [OF this, THEN conjunct2, rule_format, of 0] None show False
      by (simp add: newton_raphson_run_def)
  qed
  with None show ?thesis by (simp add: newton_raphson_def)
qed

text \<open>
  The world is not decoration: a callable that counts its calls leaves the count behind.
  On the specification's second scenario \<^verbatim>\<open>func\<close> is called twice, which is also what the
  ghost count of evaluation pairs says.
\<close>

lemma newton_raphson_w_counts_calls:
  "newton_raphson_w (counting_callable linear_func) (pure_callable linear_dervi)
     0 (1 / 10 ^ 10) 10 0 = Some (5, 2)"
  by (simp add: newton_raphson_w_def newton_raphson_loop_w.simps counting_callable_def
      pure_callable_def linear_func_def linear_dervi_def derivative_epsilon_def)

section \<open>The claims\<close>

text \<open>
  C1, as the specification states it: \<^verbatim>\<open>newton_raphson\<close> computes exactly the algorithm
  \<open>findRoot\<close>: from \<open>currentX = initialGuess\<close> and \<open>iteration = 0\<close>, loop while
  \<open>iteration \<le> maxIterations\<close>; guard, update, convergence check, increment; at the cap
  return the last estimate. The code does so for every cap below \<^verbatim>\<open>SIZE_MAX\<close>
  (\<open>newton_raphson_is_findRoot_below_size_max\<close>). At \<^verbatim>\<open>maxIteration = SIZE_MAX\<close> the code's
  counter wraps and the loop never exits at the cap: on \<open>x\<^sup>3 - 2x + 2\<close> from 1, with
  tolerance \<open>1 / 10 ^ 15\<close>, the algorithm leaves its loop after \<open>2 ^ 64\<close> passes and returns 1,
  and the code does not return.
\<close>

theorem newton_raphson_size_max_is_not_findRoot:
  "newton_raphson cycle_func cycle_dervi 1 (1 / 10 ^ 15) SIZE_MAX = None \<and>
   findRoot cycle_func cycle_dervi 1 (1 / 10 ^ 15) (unat SIZE_MAX) = 1"
proof
  have inv: "\<not> \<bar>cycle_dervi x\<bar> < derivative_epsilon \<and>
         \<not> \<bar>newton_step cycle_func cycle_dervi x - x\<bar> \<le> 1 / 10 ^ 15 \<and>
         (newton_step cycle_func cycle_dervi x = 0 \<or> newton_step cycle_func cycle_dervi x = 1)"
    if "x = 0 \<or> x = 1" for x :: real
    using that
    by (auto simp: cycle_func_def cycle_dervi_def newton_step_def derivative_epsilon_def)
  have "newton_raphson_loop cycle_func cycle_dervi (1 / 10 ^ 15) SIZE_MAX
      \<lparr>currentIteration = 0, currentX = 1, evaluations = 0\<rparr> = None"
    by (rule loop_size_max_no_return [where I = "\<lambda>x. x = 0 \<or> x = 1"]) (use inv in simp_all)
  then show "newton_raphson cycle_func cycle_dervi 1 (1 / 10 ^ 15) SIZE_MAX = None"
    by (simp add: newton_raphson_def newton_raphson_run_def)
  have passes: "unat SIZE_MAX + 1 - 0 = 2 * 2 ^ 63"
    by (simp add: SIZE_MAX_def)
  have "findRoot_loop cycle_func cycle_dervi (1 / 10 ^ 15) (unat SIZE_MAX) 0 1 =
      (newton_step cycle_func cycle_dervi ^^ (2 * 2 ^ 63)) 1"
    by (rule findRoot_loop_unrolled [where I = "\<lambda>x. x = 0 \<or> x = 1", OF _ _ passes])
       (use inv in simp_all)
  then show "findRoot cycle_func cycle_dervi 1 (1 / 10 ^ 15) (unat SIZE_MAX) = 1"
    by (simp only: findRoot_def cycle_two_steps)
qed

text \<open>
  C2, as the specification states it: for every input \<open>findRoot\<close> terminates, within
  \<open>maxIterations + 1\<close> evaluation pairs. The code does so for every cap below
  \<^verbatim>\<open>SIZE_MAX\<close> (\<open>newton_raphson_run_bounded\<close>). At \<^verbatim>\<open>maxIteration = SIZE_MAX\<close> the
  condition \<^verbatim>\<open>currentIteration <= maxIteration\<close> cannot fail and the counter wraps to 0:
  on \<open>x\<^sup>3 - 2x + 2\<close> from 0, with tolerance \<open>1 / 10 ^ 15\<close>, the iterates alternate between 0
  and 1 and the call never returns.
\<close>

theorem newton_raphson_size_max_diverges:
  "newton_raphson cycle_func cycle_dervi 0 (1 / 10 ^ 15) SIZE_MAX = None"
proof -
  have "newton_raphson_loop cycle_func cycle_dervi (1 / 10 ^ 15) SIZE_MAX
      \<lparr>currentIteration = 0, currentX = 0, evaluations = 0\<rparr> = None"
  proof (rule loop_size_max_no_return [where I = "\<lambda>x. x = 0 \<or> x = 1"])
    fix x :: real
    assume "x = 0 \<or> x = 1"
    then show "\<not> \<bar>cycle_dervi x\<bar> < derivative_epsilon \<and>
         \<not> \<bar>newton_step cycle_func cycle_dervi x - x\<bar> \<le> 1 / 10 ^ 15 \<and>
         (newton_step cycle_func cycle_dervi x = 0 \<or> newton_step cycle_func cycle_dervi x = 1)"
      by (auto simp: cycle_func_def cycle_dervi_def newton_step_def derivative_epsilon_def)
  qed simp
  then show ?thesis
    by (simp add: newton_raphson_def newton_raphson_run_def)
qed

text \<open>
  C3: when the loop condition holds and the derivative at the current estimate is below
  the literal \<^verbatim>\<open>1e-12\<close> in magnitude, the pass returns through the derivative guard with the
  locals unchanged, after its one evaluation pair; and where the derivative at the initial
  guess is exactly 0, the call returns the initial guess in the first pass.
\<close>

theorem derivative_guard_returns_current:
  "(currentIteration s \<le> maxIteration \<and> \<bar>dervi (currentX s)\<bar> < derivative_epsilon \<longrightarrow>
      newton_raphson_loop func dervi tolerance maxIteration s =
        Some (DerivativeGuard, s\<lparr>evaluations := evaluations s + 1\<rparr>)) \<and>
   (dervi initialGuess = 0 \<longrightarrow>
      newton_raphson_run func dervi initialGuess tolerance maxIteration =
        Some (DerivativeGuard,
              \<lparr>currentIteration = 0, currentX = initialGuess, evaluations = 1\<rparr>) \<and>
      newton_raphson func dervi initialGuess tolerance maxIteration = Some initialGuess)"
  by (simp add: loop_guard newton_raphson_def newton_raphson_run_def derivative_epsilon_def)

theorem derivative_guard_returns_current_witness:
  "currentIteration \<lparr>currentIteration = 3, currentX = 0, evaluations = 3\<rparr> \<le> (100 :: size_t) \<and>
   \<bar>main_dervi (currentX \<lparr>currentIteration = 3, currentX = 0, evaluations = 3\<rparr>)\<bar>
      < derivative_epsilon \<and>
   newton_raphson_loop main_func main_dervi (1 / 10 ^ 15) 100
      \<lparr>currentIteration = 3, currentX = 0, evaluations = 3\<rparr> =
     Some (DerivativeGuard, \<lparr>currentIteration = 3, currentX = 0, evaluations = 4\<rparr>) \<and>
   main_dervi 0 = 0 \<and>
   newton_raphson main_func main_dervi 0 (1 / 10 ^ 15) 100 = Some 0"
  using derivative_guard_returns_current
    [of "\<lparr>currentIteration = 3, currentX = 0, evaluations = 3\<rparr>" 100 main_dervi main_func
        "1 / 10 ^ 15" 0]
  by (simp add: main_dervi_def derivative_epsilon_def)

text \<open>
  C4: with \<open>maxIterations = 0\<close> the call makes exactly one evaluation pair and returns
  \<open>initialGuess - f(initialGuess) / fPrime(initialGuess)\<close>, or \<open>initialGuess\<close> when the
  derivative guard fires.
\<close>

theorem zero_cap_single_step:
  "newton_raphson func dervi initialGuess tolerance 0 =
     Some (if \<bar>dervi initialGuess\<bar> < derivative_epsilon then initialGuess
           else initialGuess - func initialGuess / dervi initialGuess) \<and>
   map_option (\<lambda>r. evaluations (snd r))
     (newton_raphson_run func dervi initialGuess tolerance 0) = Some 1"
proof -
  let ?s = "\<lparr>currentIteration = 0 :: size_t, currentX = initialGuess, evaluations = 0\<rparr>"
  consider (g) "\<bar>dervi initialGuess\<bar> < derivative_epsilon"
    | (c) "\<not> \<bar>dervi initialGuess\<bar> < derivative_epsilon"
          "\<bar>newton_step func dervi initialGuess - initialGuess\<bar> \<le> tolerance"
    | (n) "\<not> \<bar>dervi initialGuess\<bar> < derivative_epsilon"
          "\<not> \<bar>newton_step func dervi initialGuess - initialGuess\<bar> \<le> tolerance"
    by blast
  then show ?thesis
  proof cases
    case g
    then have "newton_raphson_loop func dervi tolerance 0 ?s =
        Some (DerivativeGuard, ?s\<lparr>evaluations := evaluations ?s + 1\<rparr>)"
      by (intro loop_guard) simp_all
    with g show ?thesis
      by (simp add: newton_raphson_def newton_raphson_run_def)
  next
    case c
    then have "newton_raphson_loop func dervi tolerance 0 ?s =
        Some (Converged, ?s\<lparr>evaluations := evaluations ?s + 1,
                              currentX := newton_step func dervi (currentX ?s)\<rparr>)"
      by (intro loop_converged) simp_all
    with c show ?thesis
      by (simp add: newton_raphson_def newton_raphson_run_def newton_step_def)
  next
    case n
    let ?s' = "?s\<lparr>evaluations := evaluations ?s + 1,
                  currentX := newton_step func dervi (currentX ?s),
                  currentIteration := currentIteration ?s + 1\<rparr>"
    from n have "newton_raphson_loop func dervi tolerance 0 ?s =
        newton_raphson_loop func dervi tolerance 0 ?s'"
      by (intro loop_continue) simp_all
    also have "\<dots> = Some (IterationCap, ?s')"
      by (intro loop_cap) simp
    finally show ?thesis using n
      by (simp add: newton_raphson_def newton_raphson_run_def newton_step_def)
  qed
qed

theorem zero_cap_single_step_witness:
  "newton_raphson main_func main_dervi 1 (1 / 10 ^ 15) 0 = Some 2 \<and>
   map_option (\<lambda>r. evaluations (snd r))
     (newton_raphson_run main_func main_dervi 1 (1 / 10 ^ 15) 0) = Some 1"
  using zero_cap_single_step [of main_func main_dervi 1 "1 / 10 ^ 15"]
  by (simp add: main_func_def main_dervi_def derivative_epsilon_def)

text \<open>
  C5: for \<open>f(x) = x - 5\<close>, \<open>fPrime(x) = 1\<close>, initial guess 0, tolerance \<open>1 / 10 ^ 10\<close> and
  cap 10 the call returns exactly 5, with the iteration counter at 1: the first pass steps
  from 0 to 5 and increments the counter, the second pass finds the step 0 and returns at
  the convergence check, after two evaluation pairs in all.
\<close>

theorem linear_scenario_returns_five:
  "newton_raphson linear_func linear_dervi 0 (1 / 10 ^ 10) 10 = Some 5 \<and>
   newton_raphson_run linear_func linear_dervi 0 (1 / 10 ^ 10) 10 =
     Some (Converged, \<lparr>currentIteration = 1, currentX = 5, evaluations = 2\<rparr>)"
  by (simp add: newton_raphson_def newton_raphson_run_def newton_raphson_loop.simps
      derivative_epsilon_def linear_func_def linear_dervi_def)

text \<open>
  C6, as the specification states it: for every input \<open>findRoot\<close> returns a value. The code
  has no \<^verbatim>\<open>throw\<close> and no error result, but with \<^verbatim>\<open>maxIteration = SIZE_MAX\<close> and iterates
  that do not converge it returns nothing at all: on \<open>x\<^sup>3 - 5x\<close> from 1, with tolerance
  \<open>1 / 10 ^ 15\<close>, the iterates alternate between 1 and \<open>-1\<close> for ever.
\<close>

theorem newton_raphson_size_max_no_value:
  "newton_raphson_run flip_func flip_dervi 1 (1 / 10 ^ 15) SIZE_MAX = None"
  unfolding newton_raphson_run_def
proof (rule loop_size_max_no_return [where I = "\<lambda>x. x = 1 \<or> x = - 1"])
  fix x :: real
  assume "x = 1 \<or> x = - 1"
  then show "\<not> \<bar>flip_dervi x\<bar> < derivative_epsilon \<and>
       \<not> \<bar>newton_step flip_func flip_dervi x - x\<bar> \<le> 1 / 10 ^ 15 \<and>
       (newton_step flip_func flip_dervi x = 1 \<or> newton_step flip_func flip_dervi x = - 1)"
    by (auto simp: flip_func_def flip_dervi_def newton_step_def derivative_epsilon_def)
qed simp




text \<open>
  C8: with pure callables, a call in any outside world \<open>w\<close> returns the value that the
  arguments alone determine and returns the world as it found it, and two calls with the
  same arguments, in whatever worlds \<open>w\<close> and \<open>w'\<close>, return the same value or both do not
  return.
\<close>

theorem pure_callables_leave_world:
  "newton_raphson_w (pure_callable func) (pure_callable dervi) initialGuess tolerance
       maxIteration w
     = map_option (\<lambda>r. (r, w))
         (newton_raphson func dervi initialGuess tolerance maxIteration) \<and>
   map_option fst
       (newton_raphson_w (pure_callable func) (pure_callable dervi) initialGuess tolerance
          maxIteration w)
     = map_option fst
         (newton_raphson_w (pure_callable func) (pure_callable dervi) initialGuess tolerance
            maxIteration w')"
  by (simp add: newton_raphson_w_pure option.map_comp comp_def)

text \<open>
  C9: if \<open>f(initialGuess) = 0\<close>, the derivative there is at least \<^verbatim>\<open>1e-12\<close> in
  magnitude and the tolerance is not negative, the call returns \<open>initialGuess\<close> in the
  first pass, through the convergence check.
\<close>

theorem exact_root_returned_at_once:
  "func initialGuess = 0 \<Longrightarrow> derivative_epsilon \<le> \<bar>dervi initialGuess\<bar> \<Longrightarrow> 0 \<le> tolerance \<Longrightarrow>
   newton_raphson func dervi initialGuess tolerance maxIteration = Some initialGuess \<and>
   newton_raphson_run func dervi initialGuess tolerance maxIteration =
     Some (Converged, \<lparr>currentIteration = 0, currentX = initialGuess, evaluations = 1\<rparr>)"
  by (simp add: newton_raphson_def newton_raphson_run_def loop_converged newton_step_def)

theorem exact_root_returned_at_once_witness:
  "linear_func 5 = 0 \<and> derivative_epsilon \<le> \<bar>linear_dervi 5\<bar> \<and> (0 :: real) \<le> 1 / 10 ^ 10 \<and>
   newton_raphson linear_func linear_dervi 5 (1 / 10 ^ 10) 10 = Some 5 \<and>
   newton_raphson_run linear_func linear_dervi 5 (1 / 10 ^ 10) 10 =
     Some (Converged, \<lparr>currentIteration = 0, currentX = 5, evaluations = 1\<rparr>)"
proof -
  have h1: "linear_func 5 = 0" by (simp add: linear_func_def)
  have h2: "derivative_epsilon \<le> \<bar>linear_dervi 5\<bar>"
    by (simp add: linear_dervi_def derivative_epsilon_def)
  have h3: "(0 :: real) \<le> 1 / 10 ^ 10" by simp
  from exact_root_returned_at_once
         [of linear_func 5 linear_dervi "1 / 10 ^ 10" 10, OF h1 h2 h3] h1 h2 h3
  show ?thesis by simp
qed

text \<open>
  C10, as stated: for every input with a negative tolerance the convergence exit never
  triggers, so the call returns through the derivative guard or, after
  \<open>maxIterations + 1\<close> updates, with the last Newton iterate. The convergence exit is indeed
  never taken, and below \<^verbatim>\<open>SIZE_MAX\<close> the call returns as claimed
  (\<open>negative_tolerance_exits\<close>). At \<^verbatim>\<open>maxIteration = SIZE_MAX\<close> it does not return at all: for
  \<open>f(x) = x - 5\<close>, \<open>fPrime(x) = 1\<close> and tolerance \<open>-1\<close> the iterate reaches 5 and stays
  there, the check \<open>0 \<le> -1\<close> fails in every pass, and the loop condition cannot fail.
\<close>

theorem negative_tolerance_size_max_no_return:
  "(- 1 :: real) < 0 \<and> newton_raphson_run linear_func linear_dervi 0 (- 1) SIZE_MAX = None"
proof -
  have "newton_raphson_loop linear_func linear_dervi (- 1) SIZE_MAX
      \<lparr>currentIteration = 0, currentX = 0, evaluations = 0\<rparr> = None"
  proof (rule loop_size_max_no_return [where I = "\<lambda>x. True"])
    fix x :: real
    show "\<not> \<bar>linear_dervi x\<bar> < derivative_epsilon \<and>
         \<not> \<bar>newton_step linear_func linear_dervi x - x\<bar> \<le> - 1 \<and> True"
      by (simp add: linear_dervi_def derivative_epsilon_def)
  qed simp
  then show ?thesis by (simp add: newton_raphson_run_def)
qed

end
